theory Spec2Isabelle
  imports Main "HOL-Library.Word"
begin

unbundle bit_operations_syntax

section \<open>Data model\<close>

text \<open>
  Python \<open>bytes\<close> are lists of 8-bit words. A Python \<open>str\<close> is a sequence of Unicode
  code points (numbers below \<open>0x110000\<close>, lone surrogates included), modelled as a list
  of naturals. Python integers are unbounded: \<open>int\<close>.
\<close>

type_synonym byte = "8 word"
type_synonym bytes = "byte list"
type_synonym py_str = "nat list"

text \<open>The exceptions that the modelled functions raise.\<close>

datatype error = ValueError | UnicodeEncodeError | KeyError

text \<open>
  The library primitives the protocol code calls: \<open>hashlib.md5\<close>, \<open>hashlib.sha1\<close> and
  \<open>DES.encrypt_block\<close> of the \<open>des\<close> module. None of them is part of the repository;
  they are parameters of the model.
\<close>

record primitives =
  hashlib_md5 :: "bytes \<Rightarrow> bytes"
  hashlib_sha1 :: "bytes \<Rightarrow> bytes"
  DES_encrypt_block :: "bytes \<Rightarrow> bytes \<Rightarrow> bytes"

text \<open>
  What the code relies on from the primitives: an MD5 digest has 16 bytes, a SHA-1 digest
  has 20 bytes, and the cipher maps an 8-byte block and an 8-byte key to an 8-byte block.
\<close>

definition primitives_ok :: "primitives \<Rightarrow> bool" where
  "primitives_ok P \<longleftrightarrow>
     (\<forall>m. length (hashlib_md5 P m) = 16) \<and>
     (\<forall>m. length (hashlib_sha1 P m) = 20) \<and>
     (\<forall>b k. length b = 8 \<longrightarrow> length k = 8 \<longrightarrow> length (DES_encrypt_block P b k) = 8)"

section \<open>String encodings\<close>

text \<open>\<open>s.encode("ascii")\<close>: one byte per code point, UnicodeEncodeError above 127.\<close>

definition encode_ascii :: "py_str \<Rightarrow> error + bytes" where
  "encode_ascii s =
     (if list_all (\<lambda>c. c < 128) s then Inr (map of_nat s) else Inl UnicodeEncodeError)"

text \<open>A 16-bit code unit, low byte first.\<close>

definition utf16le_unit :: "nat \<Rightarrow> bytes" where
  "utf16le_unit u = [of_nat (u mod 256), of_nat (u div 256)]"

text \<open>
  \<open>s.encode("utf-16le")\<close> for one code point: one unit in the basic plane, a surrogate
  pair above it, UnicodeEncodeError for a lone surrogate (\<open>0xD800\<close> to \<open>0xDFFF\<close>). The
  last branch also takes the numbers from \<open>0x110000\<close> on, which no \<open>str\<close> contains.
\<close>

definition utf16le_codepoint :: "nat \<Rightarrow> error + bytes" where
  "utf16le_codepoint c =
     (if c < 0xD800 \<or> (0xE000 \<le> c \<and> c < 0x10000) then Inr (utf16le_unit c)
      else if 0x10000 \<le> c \<and> c < 0x110000 then
        (let v = c - 0x10000
         in Inr (utf16le_unit (0xD800 + v div 1024) @ utf16le_unit (0xDC00 + v mod 1024)))
      else Inl UnicodeEncodeError)"

fun encode_utf16le :: "py_str \<Rightarrow> error + bytes" where
  "encode_utf16le [] = Inr []"
| "encode_utf16le (c # cs) =
     (case utf16le_codepoint c of
        Inl e \<Rightarrow> Inl e
      | Inr b \<Rightarrow> (case encode_utf16le cs of Inl e \<Rightarrow> Inl e | Inr bs \<Rightarrow> Inr (b @ bs)))"

section \<open>mschap.py\<close>

subsection \<open>NT hash and ChallengeHash\<close>

definition nt_password_hash :: "primitives \<Rightarrow> py_str \<Rightarrow> error + bytes" where
  "nt_password_hash P password =
     (case encode_utf16le password of
        Inl e \<Rightarrow> Inl e
      | Inr pw_bytes \<Rightarrow> Inr (hashlib_md5 P pw_bytes))"

definition challenge_hash :: "primitives \<Rightarrow> bytes \<Rightarrow> bytes \<Rightarrow> py_str \<Rightarrow> error + bytes" where
  "challenge_hash P peer_challenge auth_challenge username =
     (if length peer_challenge \<noteq> 16 \<or> length auth_challenge \<noteq> 16 then Inl ValueError
      else case encode_ascii username of
             Inl e \<Rightarrow> Inl e
           | Inr name \<Rightarrow> Inr (take 8 (hashlib_sha1 P (peer_challenge @ auth_challenge @ name))))"

subsection \<open>DES keys: 7 bytes to 8 bytes with parity\<close>

text \<open>\<open>bin(x)\<close>: an optional sign, the prefix \<open>0b\<close>, and the binary digits of \<open>|x|\<close>.\<close>

fun bin_digits :: "nat \<Rightarrow> string" where
  "bin_digits n =
     (if n < 2 then [if n = 0 then CHR ''0'' else CHR ''1'']
      else bin_digits (n div 2) @ [if n mod 2 = 0 then CHR ''0'' else CHR ''1''])"

declare bin_digits.simps [simp del]

definition bin :: "int \<Rightarrow> string" where
  "bin x = (if x < 0 then ''-'' else []) @ ''0b'' @ bin_digits (nat \<bar>x\<bar>)"

definition apply_des_parity_to_7bits :: "int \<Rightarrow> int" where
  "apply_des_parity_to_7bits b7_in =
     (let b7 = b7_in AND 0x7F;
          ones = count_list (bin b7) CHR ''1'';
          parity_bit = (if ones mod 2 = 0 then 1 else 0)
      in (push_bit 1 b7 OR parity_bit) AND 0xFF)"

text \<open>\<open>int.from_bytes(bs, "big")\<close>.\<close>

definition int_from_bytes_big :: "bytes \<Rightarrow> int" where
  "int_from_bytes_big bs = foldl (\<lambda>acc b. acc * 256 + uint b) 0 bs"

text \<open>
  The loop fills a \<open>bytearray(8)\<close> by index. Every stored value has passed through
  \<open>& 0xFF\<close>, so the store never raises and \<open>word_of_int\<close> does not truncate (lemma
  \<open>apply_des_parity_range\<close> below).
\<close>

definition make_des_key_from_7_bytes :: "bytes \<Rightarrow> error + bytes" where
  "make_des_key_from_7_bytes seven =
     (if length seven \<noteq> 7 then Inl ValueError
      else
        (let key56 = int_from_bytes_big seven;
             out = foldl (\<lambda>out i.
                      (let shift = 7 * (7 - i);
                           segment = drop_bit shift key56 AND 0x7F
                       in out[i := word_of_int (apply_des_parity_to_7bits segment)]))
                    (replicate 8 0) [0..<8]
         in Inr out))"

subsection \<open>NT-Response\<close>

text \<open>The slice \<open>z[a:b]\<close> for indices that are not negative.\<close>

definition slice :: "'a list \<Rightarrow> nat \<Rightarrow> nat \<Rightarrow> 'a list" where
  "slice z a b = take (b - a) (drop a z)"

text \<open>The body of \<open>for i in range(3)\<close>, with \<open>resp\<close> as the accumulator.\<close>

fun response_loop :: "primitives \<Rightarrow> bytes \<Rightarrow> bytes \<Rightarrow> nat list \<Rightarrow> bytes \<Rightarrow> error + bytes" where
  "response_loop P challenge8 z [] resp = Inr resp"
| "response_loop P challenge8 z (i # rest) resp =
     (let seven = slice z (i * 7) ((i + 1) * 7)
      in case make_des_key_from_7_bytes seven of
           Inl e \<Rightarrow> Inl e
         | Inr key8 \<Rightarrow>
             (let block = DES_encrypt_block P challenge8 key8
              in response_loop P challenge8 z rest (resp @ block)))"

definition challenge_response :: "primitives \<Rightarrow> bytes \<Rightarrow> bytes \<Rightarrow> error + bytes" where
  "challenge_response P challenge8 nt_hash =
     (if length challenge8 \<noteq> 8 then Inl ValueError
      else if length nt_hash \<noteq> 16 then Inl ValueError
      else (let z = nt_hash @ replicate 5 0
            in response_loop P challenge8 z [0..<3] []))"

subsection \<open>Client and server functions\<close>

definition generate_nt_response ::
  "primitives \<Rightarrow> bytes \<Rightarrow> bytes \<Rightarrow> py_str \<Rightarrow> py_str \<Rightarrow> error + bytes" where
  "generate_nt_response P auth_challenge peer_challenge username password =
     (case nt_password_hash P password of
        Inl e \<Rightarrow> Inl e
      | Inr nt_hash \<Rightarrow>
          (case challenge_hash P peer_challenge auth_challenge username of
             Inl e \<Rightarrow> Inl e
           | Inr chall8 \<Rightarrow> challenge_response P chall8 nt_hash))"

definition verify_nt_response ::
  "primitives \<Rightarrow> bytes \<Rightarrow> bytes \<Rightarrow> py_str \<Rightarrow> bytes \<Rightarrow> bytes \<Rightarrow> error + bool" where
  "verify_nt_response P auth_challenge peer_challenge username stored_nt_hash received_nt_response =
     (if length received_nt_response \<noteq> 24 then Inr False
      else case challenge_hash P peer_challenge auth_challenge username of
             Inl e \<Rightarrow> Inl e
           | Inr chall8 \<Rightarrow>
               (case challenge_response P chall8 stored_nt_hash of
                  Inl e \<Rightarrow> Inl e
                | Inr expected \<Rightarrow> Inr (expected = received_nt_response)))"

section \<open>server.py\<close>

text \<open>One MS-CHAPv2 session on the server: class \<open>AuthSession\<close>.\<close>

record AuthSession =
  sess_username :: py_str
  sess_auth_challenge :: bytes

text \<open>
  \<open>AuthSessionManager._sessions\<close>, a dictionary from session identifiers to sessions. The
  manager's methods take the dictionary and, where they change it, return the new one.
\<close>

type_synonym session_store = "py_str \<rightharpoonup> AuthSession"

text \<open>
  \<open>create_session\<close> draws the challenge from \<open>os.urandom(16)\<close> and the identifier from
  \<open>uuid.uuid4()\<close>; both values are arguments here.
\<close>

definition create_session ::
  "bytes \<Rightarrow> py_str \<Rightarrow> session_store \<Rightarrow> py_str \<Rightarrow> py_str \<times> session_store" where
  "create_session urandom16 uuid4 sessions username =
     (let auth_challenge = urandom16;
          session_id = uuid4
      in (session_id,
          sessions(session_id \<mapsto>
            \<lparr>sess_username = username, sess_auth_challenge = auth_challenge\<rparr>)))"

definition get_session :: "session_store \<Rightarrow> py_str \<Rightarrow> error + AuthSession" where
  "get_session sessions session_id =
     (case sessions session_id of None \<Rightarrow> Inl KeyError | Some sess \<Rightarrow> Inr sess)"

definition get_auth_challenge :: "session_store \<Rightarrow> py_str \<Rightarrow> error + bytes" where
  "get_auth_challenge sessions session_id =
     (case get_session sessions session_id of
        Inl e \<Rightarrow> Inl e
      | Inr sess \<Rightarrow> Inr (sess_auth_challenge sess))"

definition get_username :: "session_store \<Rightarrow> py_str \<Rightarrow> error + py_str" where
  "get_username sessions session_id =
     (case get_session sessions session_id of
        Inl e \<Rightarrow> Inl e
      | Inr sess \<Rightarrow> Inr (sess_username sess))"

definition delete_session :: "session_store \<Rightarrow> py_str \<Rightarrow> session_store" where
  "delete_session sessions session_id = sessions(session_id := None)"

text \<open>The request body of \<open>/auth/response\<close>; the last two fields are base64 text.\<close>

record AuthResponseRequest =
  req_session_id :: py_str
  req_username :: py_str
  req_peer_challenge :: py_str
  req_nt_response :: py_str

text \<open>
  How a request handler fails: an \<open>HTTPException\<close> with status code and detail, or
  an exception that no handler catches.
\<close>

datatype http_error = HTTPException nat string | Uncaught error

text \<open>
  What the handlers use from outside the repository's own logic: the cryptographic
  primitives, the base64 codec (\<open>None\<close> when \<open>b64decode\<close> raises) and the lookup of
  a user's stored NT hash in the database (\<open>None\<close> when there is no such user).
\<close>

record server_env =
  crypto :: primitives
  b64decode :: "py_str \<Rightarrow> bytes option"
  b64encode :: "bytes \<Rightarrow> py_str"
  get_user_by_username :: "py_str \<Rightarrow> bytes option"

definition auth_challenge_endpoint ::
  "server_env \<Rightarrow> bytes \<Rightarrow> py_str \<Rightarrow> session_store \<Rightarrow> py_str \<Rightarrow>
     (http_error + py_str \<times> py_str) \<times> session_store" where
  "auth_challenge_endpoint E urandom16 uuid4 sessions username =
     (case get_user_by_username E username of
        None \<Rightarrow> (Inl (HTTPException 404 ''User not found''), sessions)
      | Some user \<Rightarrow>
          (let (session_id, sessions') = create_session urandom16 uuid4 sessions username
           in case get_auth_challenge sessions' session_id of
                Inl e \<Rightarrow> (Inl (Uncaught e), sessions')
              | Inr auth_challenge \<Rightarrow> (Inr (session_id, b64encode E auth_challenge), sessions')))"

text \<open>
  \<open>auth_response\<close>: every rejection raises before the session is deleted; the session is
  deleted only after \<open>verify_nt_response\<close> has returned. The session manager raises
  nothing but KeyError, which the handler turns into status 400.
\<close>

definition auth_response ::
  "server_env \<Rightarrow> session_store \<Rightarrow> AuthResponseRequest \<Rightarrow> (http_error + bool) \<times> session_store" where
  "auth_response E sessions req =
     (case get_username sessions (req_session_id req) of
        Inl e \<Rightarrow> (Inl (HTTPException 400 ''Invalid session_id''), sessions)
      | Inr sess_name \<Rightarrow>
     (case get_auth_challenge sessions (req_session_id req) of
        Inl e \<Rightarrow> (Inl (HTTPException 400 ''Invalid session_id''), sessions)
      | Inr auth_challenge \<Rightarrow>
          if sess_name \<noteq> req_username req then
            (Inl (HTTPException 400 ''Username mismatch''), sessions)
          else
            (case b64decode E (req_peer_challenge req) of
               None \<Rightarrow> (Inl (HTTPException 400 ''Bad base64''), sessions)
             | Some peer_challenge \<Rightarrow>
            (case b64decode E (req_nt_response req) of
               None \<Rightarrow> (Inl (HTTPException 400 ''Bad base64''), sessions)
             | Some nt_response \<Rightarrow>
                 if length peer_challenge \<noteq> 16 \<or> length nt_response \<noteq> 24 then
                   (Inl (HTTPException 400 ''Wrong lengths''), sessions)
                 else
                   (case get_user_by_username E (req_username req) of
                      None \<Rightarrow> (Inl (HTTPException 404 ''User not found''), sessions)
                    | Some stored_nt_hash \<Rightarrow>
                        (case verify_nt_response (crypto E) auth_challenge peer_challenge
                                (req_username req) stored_nt_hash nt_response of
                           Inl e \<Rightarrow> (Inl (Uncaught e), sessions)
                         | Inr ok \<Rightarrow>
                             (Inr ok, delete_session sessions (req_session_id req))))))))"


section \<open>Auxiliary definitions for the statements\<close>

text \<open>
  Stand-ins for the library primitives, used to instantiate the theorems at concrete
  inputs: they have the output lengths of MD5, SHA-1 and a 64-bit block cipher.
\<close>

definition demo_primitives :: primitives where
  "demo_primitives =
     \<lparr> hashlib_md5 = (\<lambda>m. replicate 16 (sum_list m)),
       hashlib_sha1 = (\<lambda>m. replicate 20 (sum_list m)),
       DES_encrypt_block = (\<lambda>b k. map2 (XOR) b k) \<rparr>"

text \<open>
  A \<open>str\<close> literal as its code points, and a server environment for concrete inputs:
  the stand-in primitives, a stand-in codec and a database with the one user "alice".
\<close>

definition str :: "string \<Rightarrow> py_str" where
  "str s = map of_char s"

definition demo_env :: server_env where
  "demo_env =
     \<lparr> crypto = demo_primitives,
       b64decode = (\<lambda>s. if list_all (\<lambda>c. c < 128) s then Some (map of_nat s) else None),
       b64encode = map unat,
       get_user_by_username = [str ''alice'' \<mapsto> replicate 16 144] \<rparr>"


text \<open>Bit \<open>j\<close> of byte \<open>i\<close> of a response, inverted.\<close>

definition flip_response_bit :: "bytes \<Rightarrow> nat \<Rightarrow> nat \<Rightarrow> bytes" where
  "flip_response_bit r i j = r[i := flip_bit j (r ! i)]"

text \<open>
  Key Expansion as the specification words it: the 7 bytes read as one 56-bit big-endian
  integer, the 7-bit group at bit offset \<open>7 * (7 - i)\<close> for each output index, a parity
  bit that is 1 when the group has an even number of set bits, and the group shifted left
  by one with the parity bit OR-ed in.
\<close>

definition key_expansion_reference :: "bytes \<Rightarrow> bytes" where
  "key_expansion_reference seven =
     (let n = (\<Sum>j\<leftarrow>[0..<7]. uint (seven ! j) * 2 ^ (8 * (6 - j)))
      in map (\<lambda>i. let group = take_bit 7 (drop_bit (7 * (7 - i)) n);
                      parity_bit = (if even (length (filter (bit group) [0..<7])) then 1 else 0)
                  in word_of_int (push_bit 1 group OR parity_bit)) [0..<8])"

text \<open>The number of set bits of a byte.\<close>

definition set_bit_count :: "byte \<Rightarrow> nat" where
  "set_bit_count b = length (filter (bit b) [0..<8])"

text \<open>
  The Response Transform as the specification words it: 5 zero bytes appended to the
  digest, three consecutive 7-byte chunks, each expanded to a cipher key, the same
  challenge encrypted once under each key, and the three blocks concatenated in order.
\<close>

definition response_transform_reference :: "primitives \<Rightarrow> bytes \<Rightarrow> bytes \<Rightarrow> bytes" where
  "response_transform_reference P challenge8 digest16 =
     (let buffer = digest16 @ replicate 5 0;
          chunk1 = take 7 buffer;
          chunk2 = take 7 (drop 7 buffer);
          chunk3 = take 7 (drop 14 buffer)
      in DES_encrypt_block P challenge8 (key_expansion_reference chunk1) @
         DES_encrypt_block P challenge8 (key_expansion_reference chunk2) @
         DES_encrypt_block P challenge8 (key_expansion_reference chunk3))"

text \<open>A string of ASCII code points; a string that UTF-16 can encode (no lone surrogate).\<close>

definition is_ascii :: "py_str \<Rightarrow> bool" where
  "is_ascii s = list_all (\<lambda>c. c < 128) s"

definition utf16_encodable :: "py_str \<Rightarrow> bool" where
  "utf16_encodable s = list_all (\<lambda>c. c < 0xD800 \<or> (0xE000 \<le> c \<and> c < 0x110000)) s"

text \<open>
  Reading a key back: the high 7 bits of each key byte, concatenated most significant
  first into one integer, and that integer written as 7 bytes, big-endian
  (\<open>int.to_bytes(7, "big")\<close>).
\<close>

fun int_to_bytes_big :: "nat \<Rightarrow> int \<Rightarrow> bytes" where
  "int_to_bytes_big 0 n = []"
| "int_to_bytes_big (Suc k) n = int_to_bytes_big k (drop_bit 8 n) @ [word_of_int n]"

definition key_material_of_des_key :: "bytes \<Rightarrow> bytes" where
  "key_material_of_des_key key8 =
     int_to_bytes_big 7 (foldl (\<lambda>acc b. acc * 128 + uint (drop_bit 1 b)) 0 key8)"

section \<open>Properties of Key Expansion\<close>

lemma filter_upt_Suc:
  "filter P [0..<Suc k] = (if P 0 then [0] else []) @ map Suc (filter (P \<circ> Suc) [0..<k])"
proof -
  have "[0..<Suc k] = 0 # map Suc [0..<k]"
    by (simp add: upt_conv_Cons map_Suc_upt del: upt_Suc)
  then show ?thesis by (simp add: filter_map del: upt_Suc)
qed

lemma count_bits_Suc:
  "length (filter (bit (n::nat)) [0..<Suc k]) = n mod 2 + length (filter (bit (n div 2)) [0..<k])"
proof -
  have "bit n \<circ> Suc = bit (n div 2)" by (rule ext) (simp add: bit_Suc)
  moreover have "(if bit n 0 then 1 else 0) = n mod 2" by (simp add: bit_0 mod2_eq_if)
  ultimately show ?thesis
    unfolding filter_upt_Suc by (auto simp: bit_0 mod2_eq_if)
qed

lemma bin_digits_ones:
  "n < 2 ^ k \<Longrightarrow> count_list (bin_digits n) CHR ''1'' = length (filter (bit n) [0..<k])"
proof (induction k arbitrary: n)
  case 0
  then have "n = 0" by simp
  then show ?case by (simp add: bin_digits.simps)
next
  case (Suc k)
  show ?case
  proof (cases "n < 2")
    case True
    then have "n = 0 \<or> n = 1" by auto
    then show ?thesis
      by (auto simp: bin_digits.simps[of 0] bin_digits.simps[of "Suc 0"] count_bits_Suc simp del: upt_Suc)
  next
    case False
    from Suc.prems have "n div 2 < 2 ^ k" by auto
    then have IH: "count_list (bin_digits (n div 2)) CHR ''1'' = length (filter (bit (n div 2)) [0..<k])"
      by (rule Suc.IH)
    have "count_list (bin_digits n) CHR ''1'' = count_list (bin_digits (n div 2)) CHR ''1'' + n mod 2"
      using False by (subst bin_digits.simps) (auto simp: mod2_eq_if)
    then show ?thesis using IH by (simp add: count_bits_Suc del: upt_Suc)
  qed
qed

lemma loop_is_map:
  "n \<le> length xs \<Longrightarrow> foldl (\<lambda>out i. out[i := f i]) xs [0..<n] = map f [0..<n] @ drop n xs"
proof (induction n)
  case 0
  then show ?case by simp
next
  case (Suc n)
  then have "n < length xs" by simp
  then have "(map f [0..<n] @ drop n xs)[n := f n] = map f [0..<n] @ f n # drop (Suc n) xs"
    by (simp add: list_update_append Cons_nth_drop_Suc [symmetric] )
  with Suc show ?case by simp
qed


lemma take_bit_7_bounds: "0 \<le> take_bit 7 (x::int) \<and> take_bit 7 x < 128"
  using take_bit_int_less_exp [of 7 x] by simp

lemma shift_or_parity:
  "p = 0 \<or> p = 1 \<Longrightarrow> push_bit 1 (g::int) OR p = 2 * g + p"
  by (auto simp: push_bit_eq_mult or_one_eq mult.commute)

lemma parity_value:
  "apply_des_parity_to_7bits x =
     (let g = take_bit 7 x
      in 2 * g + (if even (length (filter (bit g) [0..<7])) then 1 else 0))"
proof -
  define g where "g = take_bit 7 x"
  have g: "0 \<le> g" "g < 128" using take_bit_7_bounds [of x] by (simp_all add: g_def)
  have and7: "x AND 0x7F = g"
    by (simp add: g_def take_bit_eq_mask mask_eq_exp_minus_1)
  have "nat g < 2 ^ 7" using g by simp
  then have ones: "count_list (bin_digits (nat g)) CHR ''1'' = length (filter (bit (nat g)) [0..<7])"
    by (rule bin_digits_ones)
  have bitnat: "bit (nat g) = bit g"
    using g by (intro ext) (simp add: bit_nat_iff)
  have cnt: "count_list (bin g) CHR ''1'' = length (filter (bit g) [0..<7])"
    using g ones by (simp add: bin_def bitnat)
  define p :: int where "p = (if even (length (filter (bit g) [0..<7])) then 1 else 0)"
  have p: "p = 0 \<or> p = 1" by (simp add: p_def)
  have v: "push_bit 1 g OR p = 2 * g + p" using p by (rule shift_or_parity)
  have "0 \<le> 2 * g + p" "2 * g + p < 256" using g p by auto
  then have "take_bit 8 (2 * g + p) = 2 * g + p" by (simp add: take_bit_int_eq_self)
  then have m: "(2 * g + p) AND 0xFF = 2 * g + p"
    by (simp add: take_bit_eq_mask mask_eq_exp_minus_1)
  show ?thesis
    unfolding apply_des_parity_to_7bits_def Let_def and7 cnt
    using v m by (simp add: p_def g_def even_iff_mod_2_eq_zero)
qed

lemma apply_des_parity_range:
  "0 \<le> apply_des_parity_to_7bits x \<and> apply_des_parity_to_7bits x < 256"
  using take_bit_7_bounds [of x] by (simp add: parity_value Let_def)

lemma length_7_list:
  assumes "length xs = 7"
  obtains a b c d e f g where "xs = [a, b, c, d, e, f, g]"
  using assms by (auto simp: numeral_eq_Suc length_Suc_conv)

lemma upt_7: "[0..<7] = [0, 1, 2, 3, 4, 5, 6]"
  by (simp add: upt_rec)

lemma upt_8: "[0..<8] = [0, 1, 2, 3, 4, 5, 6, 7]"
  by (simp add: upt_rec)

lemma int_from_bytes_big_7:
  "length seven = 7 \<Longrightarrow>
     int_from_bytes_big seven = (\<Sum>j\<leftarrow>[0..<7]. uint (seven ! j) * 2 ^ (8 * (6 - j)))"
  by (erule length_7_list) (simp add: int_from_bytes_big_def upt_7)

lemma make_des_key_map:
  "length seven = 7 \<Longrightarrow>
     make_des_key_from_7_bytes seven =
       Inr (map (\<lambda>i. word_of_int (apply_des_parity_to_7bits
                        (drop_bit (7 * (7 - i)) (int_from_bytes_big seven) AND 0x7F)))
              [0..<8])"
proof -
  let ?f = "\<lambda>i. (word_of_int (apply_des_parity_to_7bits
                        (drop_bit (7 * (7 - i)) (int_from_bytes_big seven) AND 0x7F)) :: byte)"
  have "foldl (\<lambda>out i. out[i := ?f i]) (replicate 8 0) [0..<8] = map ?f [0..<8] @ drop 8 (replicate 8 0)"
    by (rule loop_is_map) simp
  then show "length seven = 7 \<Longrightarrow> ?thesis"
    by (simp add: make_des_key_from_7_bytes_def Let_def)
qed

lemma parity_of_segment:
  "apply_des_parity_to_7bits (x AND 0x7F) =
     (let g = take_bit 7 x
      in push_bit 1 g OR (if even (length (filter (bit g) [0..<7])) then 1 else 0))"
proof -
  have "x AND 0x7F = take_bit 7 x" by (simp add: take_bit_eq_mask mask_eq_exp_minus_1)
  moreover have "push_bit 1 g OR 1 = 2 * g + 1" "push_bit 1 g OR 0 = 2 * g + 0" for g :: int
    by (rule shift_or_parity, simp)+
  ultimately show ?thesis
    by (simp add: parity_value Let_def del: push_bit_of_Suc_0 push_bit_eq_mult)
qed


lemma count_bits_Suc_int:
  "length (filter (bit (v::int)) [0..<Suc k]) =
     (if odd v then 1 else 0) + length (filter (bit (v div 2)) [0..<k])"
proof -
  have "bit v \<circ> Suc = bit (v div 2)" by (rule ext) (simp add: bit_Suc)
  then show ?thesis
    unfolding filter_upt_Suc by (auto simp: bit_0)
qed

lemma set_bit_count_word_of_int:
  "set_bit_count (word_of_int v) = length (filter (bit v) [0..<8])"
  unfolding set_bit_count_def
  by (rule arg_cong [where f = length], rule filter_cong) (simp_all add: bit_word_of_int_iff)

lemma parity_byte_odd: "odd (set_bit_count (word_of_int (apply_des_parity_to_7bits x)))"
proof -
  define g where "g = take_bit 7 x"
  define c where "c = length (filter (bit g) [0..<7])"
  define p :: int where "p = (if even c then 1 else 0)"
  have v: "apply_des_parity_to_7bits x = 2 * g + p"
    by (simp add: parity_value Let_def g_def c_def p_def)
  have "length (filter (bit (2 * g + p)) [0..<8]) = (if even c then 1 else 0) + c"
    using count_bits_Suc_int [of "2 * g + p" 7] by (simp add: c_def p_def del: upt_Suc)
  then have "odd (length (filter (bit (2 * g + p)) [0..<8]))" by simp
  then show ?thesis
    unfolding v set_bit_count_word_of_int .
qed


lemma key_expansion_reference_example:
  "key_expansion_reference [1, 2, 3, 4, 5, 6, 7] = [1, 128, 128, 97, 64, 41, 25, 14]"
  by (simp add: key_expansion_reference_def upt_7 upt_8 Let_def)

text \<open>
  Claim C5. For every 7-byte input \<open>make_des_key_from_7_bytes\<close> returns the key that the
  reference definition of Key Expansion describes.
\<close>

theorem key_expansion_refines_reference:
  "length seven = 7 \<Longrightarrow> make_des_key_from_7_bytes seven = Inr (key_expansion_reference seven)"
  by (simp add: make_des_key_map key_expansion_reference_def int_from_bytes_big_7 parity_of_segment Let_def
           del: upt_Suc)

theorem key_expansion_refines_reference_witness:
  "length [1, 2, 3, 4, 5, 6, 7 :: byte] = 7 \<and>
   make_des_key_from_7_bytes [1, 2, 3, 4, 5, 6, 7] = Inr [1, 128, 128, 97, 64, 41, 25, 14]"
  using key_expansion_refines_reference [of "[1, 2, 3, 4, 5, 6, 7]"]
  by (simp add: key_expansion_reference_example)

text \<open>
  Claim C6. For every 7-byte input \<open>make_des_key_from_7_bytes\<close> returns 8 bytes, and each
  of them has an odd number of set bits.
\<close>

theorem des_key_bytes_odd_parity:
  assumes "length seven = 7"
  shows "\<exists>key. make_des_key_from_7_bytes seven = Inr key \<and> length key = 8 \<and>
               list_all (\<lambda>b. odd (set_bit_count b)) key"
  using assms by (simp add: make_des_key_map list_all_iff parity_byte_odd del: upt_Suc)

theorem des_key_bytes_odd_parity_witness:
  "length [1, 2, 3, 4, 5, 6, 7 :: byte] = 7 \<and>
   (\<exists>key. make_des_key_from_7_bytes [1, 2, 3, 4, 5, 6, 7] = Inr key \<and> length key = 8 \<and>
          list_all (\<lambda>b. odd (set_bit_count b)) key)"
  using des_key_bytes_odd_parity [of "[1, 2, 3, 4, 5, 6, 7]"] by simp

section \<open>Properties of the protocol engine\<close>

lemma demo_primitives_ok: "primitives_ok demo_primitives"
  by (simp add: primitives_ok_def demo_primitives_def)

lemma verify_True_iff:
  "verify_nt_response P ac pc u h r = Inr True \<longleftrightarrow>
     length r = 24 \<and> (\<exists>c. challenge_hash P pc ac u = Inr c \<and> challenge_response P c h = Inr r)"
  by (auto simp: verify_nt_response_def split: sum.splits)

lemma make_des_key_eq_reference:
  "length seven = 7 \<Longrightarrow> make_des_key_from_7_bytes seven = Inr (key_expansion_reference seven)"
  by (simp add: make_des_key_map key_expansion_reference_def int_from_bytes_big_7 parity_of_segment Let_def
           del: upt_Suc)

lemma length_key_expansion_reference: "length (key_expansion_reference seven) = 8"
  by (simp add: key_expansion_reference_def Let_def)

lemma upt_3: "[0..<3] = [0, 1, 2]"
  by (simp add: upt_rec)

lemma challenge_response_eq_reference:
  assumes "length challenge8 = 8" and "length nt_hash = 16"
  shows "challenge_response P challenge8 nt_hash =
           Inr (response_transform_reference P challenge8 nt_hash)"
proof -
  let ?z = "nt_hash @ replicate 5 0"
  have s0: "slice ?z (0 * 7) ((0 + 1) * 7) = take 7 ?z" by (simp add: slice_def)
  have s1: "slice ?z (1 * 7) ((1 + 1) * 7) = take 7 (drop 7 ?z)" by (simp add: slice_def)
  have s2: "slice ?z (2 * 7) ((2 + 1) * 7) = take 7 (drop 14 ?z)" by (simp add: slice_def)
  have l0: "length (take 7 ?z) = 7" using assms by simp
  have l1: "length (take 7 (drop 7 ?z)) = 7" using assms by simp
  have l2: "length (take 7 (drop 14 ?z)) = 7" using assms by simp
  show ?thesis
    unfolding challenge_response_def upt_3 response_loop.simps Let_def s0 s1 s2
      make_des_key_eq_reference [OF l0] make_des_key_eq_reference [OF l1]
      make_des_key_eq_reference [OF l2] response_transform_reference_def
    using assms by simp
qed

lemma length_response_transform_reference:
  assumes "primitives_ok P" and "length challenge8 = 8"
  shows "length (response_transform_reference P challenge8 digest16) = 24"
proof -
  have "length (DES_encrypt_block P challenge8 (key_expansion_reference s)) = 8" for s
    using assms by (simp add: primitives_ok_def length_key_expansion_reference)
  then show ?thesis by (simp add: response_transform_reference_def Let_def)
qed

lemma encode_utf16le_ok:
  "utf16_encodable s \<Longrightarrow> \<exists>bs. encode_utf16le s = Inr bs"
  by (induction s) (auto simp: utf16_encodable_def utf16le_codepoint_def Let_def)

lemma encode_utf16le_fails:
  "\<not> utf16_encodable s \<Longrightarrow> encode_utf16le s = Inl UnicodeEncodeError"
  by (induction s) (auto simp: utf16_encodable_def utf16le_codepoint_def Let_def split: sum.splits)


lemma replicate_numeral: "replicate (numeral k) x = x # replicate (pred_numeral k) x"
  by (simp add: numeral_eq_Suc)

lemma demo_digest_example: "nt_password_hash demo_primitives [80, 64] = Inr (replicate 16 144)"
  by (simp add: nt_password_hash_def utf16le_codepoint_def utf16le_unit_def demo_primitives_def)

lemma demo_challenge_example:
  "challenge_hash demo_primitives (replicate 16 1) (replicate 16 0) [97, 108] = Inr (replicate 8 221)"
  by (simp add: challenge_hash_def encode_ascii_def demo_primitives_def replicate_numeral)

lemma key_expansion_reference_example_144: "key_expansion_reference (replicate 7 144) = [145, 73, 37, 19, 8, 133, 67, 32]"
  by (simp add: key_expansion_reference_def upt_7 upt_8 Let_def replicate_numeral)

lemma key_expansion_reference_example_tail: "key_expansion_reference [144, 144, 0, 0, 0, 0, 0] = [145, 73, 1, 1, 1, 1, 1, 1]"
  by (simp add: key_expansion_reference_def upt_7 upt_8 Let_def)

lemma demo_transform_example:
  "response_transform_reference demo_primitives (replicate 8 221) (replicate 16 144) =
     [76, 148, 248, 206, 213, 88, 158, 253, 76, 148, 248, 206, 213, 88, 158, 253,
      76, 148, 220, 220, 220, 220, 220, 220]"
proof -
  have "take 7 (replicate 16 144 @ replicate 5 0) = replicate 7 (144 :: byte)" by simp
  moreover have "take 7 (drop 7 (replicate 16 144 @ replicate 5 0)) = replicate 7 (144 :: byte)" by simp
  moreover have "take 7 (drop 14 (replicate 16 144 @ replicate 5 0)) = [144, 144, 0, 0, 0, 0, 0 :: byte]"
    by (simp add: replicate_numeral)
  ultimately show ?thesis
    by (simp add: response_transform_reference_def Let_def key_expansion_reference_example_144
          key_expansion_reference_example_tail demo_primitives_def)
       (simp add: replicate_numeral)
qed

lemma flip_bit_byte_neq: "j < 8 \<Longrightarrow> flip_bit j (w :: byte) \<noteq> w"
proof
  assume j: "j < 8" and eq: "flip_bit j w = w"
  have "bit (flip_bit j w) j \<longleftrightarrow> \<not> bit w j"
    using j by (simp add: bit_flip_bit_iff)
  with eq show False by simp
qed

lemma flip_response_bit_neq:
  "i < length r \<Longrightarrow> j < 8 \<Longrightarrow> flip_response_bit r i j \<noteq> r"
proof
  assume i: "i < length r" and j: "j < 8" and eq: "flip_response_bit r i j = r"
  from eq have "flip_response_bit r i j ! i = r ! i" by simp
  with i have "flip_bit j (r ! i) = r ! i" by (simp add: flip_response_bit_def)
  with j show False using flip_bit_byte_neq by blast
qed

lemma demo_generate_example:
  "generate_nt_response demo_primitives (replicate 16 0) (replicate 16 1) [97, 108] [80, 64] =
     Inr [76, 148, 248, 206, 213, 88, 158, 253, 76, 148, 248, 206, 213, 88, 158, 253,
          76, 148, 220, 220, 220, 220, 220, 220]"
  by (simp add: generate_nt_response_def demo_digest_example demo_challenge_example
        challenge_response_eq_reference demo_transform_example)

lemma demo_verify_example:
  "verify_nt_response demo_primitives (replicate 16 0) (replicate 16 1) [97, 108] (replicate 16 144)
     [76, 148, 248, 206, 213, 88, 158, 253, 76, 148, 248, 206, 213, 88, 158, 253,
      76, 148, 220, 220, 220, 220, 220, 220] = Inr True"
  by (simp add: verify_nt_response_def demo_challenge_example
        challenge_response_eq_reference demo_transform_example)


lemma challenge_hash_ok:
  assumes "primitives_ok P" and "length pc = 16" and "length ac = 16" and "is_ascii u"
  shows "\<exists>c. challenge_hash P pc ac u = Inr c \<and> length c = 8"
  using assms by (simp add: challenge_hash_def encode_ascii_def is_ascii_def primitives_ok_def)

text \<open>
  Claim C2. \<open>verify_nt_response\<close> returns False, without raising, whenever the received
  response is not exactly 24 bytes long. When it is, and both challenges and the stored
  hash have 16 bytes, the result is True exactly when the challenge hash and the expected
  response are recomputed and the expected response equals the received one; with an
  ASCII user name and primitives of the right output lengths the recomputation succeeds
  and the result is the outcome of that comparison.
\<close>

theorem verify_nt_response_contract:
  "(length r \<noteq> 24 \<longrightarrow> verify_nt_response P ac pc u h r = Inr False) \<and>
   (length r = 24 \<longrightarrow> length ac = 16 \<longrightarrow> length pc = 16 \<longrightarrow> length h = 16 \<longrightarrow>
      (verify_nt_response P ac pc u h r = Inr True \<longleftrightarrow>
         (\<exists>c. challenge_hash P pc ac u = Inr c \<and> challenge_response P c h = Inr r)) \<and>
      (primitives_ok P \<longrightarrow> is_ascii u \<longrightarrow>
         (\<exists>c expected. challenge_hash P pc ac u = Inr c \<and>
            challenge_response P c h = Inr expected \<and>
            verify_nt_response P ac pc u h r = Inr (expected = r))))"
proof (intro conjI impI)
  assume "length r \<noteq> 24"
  then show "verify_nt_response P ac pc u h r = Inr False"
    by (simp add: verify_nt_response_def)
next
  show "verify_nt_response P ac pc u h r = Inr True \<longleftrightarrow>
         (\<exists>c. challenge_hash P pc ac u = Inr c \<and> challenge_response P c h = Inr r)"
    if "length r = 24"
    using that by (simp add: verify_True_iff)
next
  assume r: "length r = 24" and ac: "length ac = 16" and pc: "length pc = 16"
    and h: "length h = 16" and P: "primitives_ok P" and u: "is_ascii u"
  from P pc ac u obtain c where c: "challenge_hash P pc ac u = Inr c" "length c = 8"
    using challenge_hash_ok by blast
  from c(2) h have e: "challenge_response P c h = Inr (response_transform_reference P c h)"
    by (rule challenge_response_eq_reference)
  have "verify_nt_response P ac pc u h r = Inr (response_transform_reference P c h = r)"
    using r c e by (simp add: verify_nt_response_def)
  with c e show "\<exists>c expected. challenge_hash P pc ac u = Inr c \<and>
            challenge_response P c h = Inr expected \<and>
            verify_nt_response P ac pc u h r = Inr (expected = r)"
    by blast
qed

theorem verify_nt_response_contract_witness:
  "verify_nt_response demo_primitives (replicate 16 0) (replicate 16 1) [97, 108] (replicate 16 144)
     (replicate 23 0) = Inr False \<and>
   length (replicate 24 (0 :: byte)) = 24 \<and> length (replicate 16 (0 :: byte)) = 16 \<and>
   length (replicate 16 (1 :: byte)) = 16 \<and> length (replicate 16 (144 :: byte)) = 16 \<and>
   primitives_ok demo_primitives \<and> is_ascii [97, 108] \<and>
   verify_nt_response demo_primitives (replicate 16 0) (replicate 16 1) [97, 108] (replicate 16 144)
      (replicate 24 0) = Inr False"
  using verify_nt_response_contract
          [of "replicate 23 0" demo_primitives "replicate 16 0" "replicate 16 1" "[97, 108]"
              "replicate 16 144"]
        verify_nt_response_contract
          [of "replicate 24 0" demo_primitives "replicate 16 0" "replicate 16 1" "[97, 108]"
              "replicate 16 144"]
  by (simp add: demo_primitives_ok is_ascii_def demo_challenge_example
        challenge_response_eq_reference demo_transform_example)
     (simp add: replicate_numeral)

text \<open>
  Claim C8. Each length guard comes first: with a challenge that is not 16 bytes long
  \<open>challenge_hash\<close> raises ValueError, with a challenge hash that is not 8 bytes or an NT
  hash that is not 16 bytes \<open>challenge_response\<close> raises ValueError, and with an input
  that is not 7 bytes \<open>make_des_key_from_7_bytes\<close> raises ValueError. The result does not
  depend on the primitives or on the user name (not even on whether it is ASCII), so
  nothing has been computed before the guard.
\<close>

theorem length_guards:
  "(length peer \<noteq> 16 \<or> length auth \<noteq> 16 \<longrightarrow>
      challenge_hash P peer auth username = Inl ValueError) \<and>
   (length challenge8 \<noteq> 8 \<or> length nt_hash \<noteq> 16 \<longrightarrow>
      challenge_response P challenge8 nt_hash = Inl ValueError) \<and>
   (length seven \<noteq> 7 \<longrightarrow> make_des_key_from_7_bytes seven = Inl ValueError)"
  by (simp add: challenge_hash_def challenge_response_def make_des_key_from_7_bytes_def)

theorem length_guards_witness:
  "challenge_hash demo_primitives (replicate 15 0) (replicate 16 0) [1234] = Inl ValueError \<and>
   challenge_response demo_primitives (replicate 8 0) (replicate 17 0) = Inl ValueError \<and>
   make_des_key_from_7_bytes (replicate 8 0) = Inl ValueError"
  using length_guards
          [of "replicate 15 0" "replicate 16 0" demo_primitives "[1234]" "replicate 8 0"
              "replicate 17 0" "replicate 8 0"]
  by simp

text \<open>
  Claim C9. The fail-closed behaviour of \<open>verify_nt_response\<close> covers the response length
  only: with a 24-byte response and a peer or authenticator challenge that is not 16
  bytes long, the ValueError of \<open>challenge_hash\<close> propagates.
\<close>

theorem verify_raises_on_bad_challenge:
  assumes "length r = 24" and "length pc \<noteq> 16 \<or> length ac \<noteq> 16"
  shows "verify_nt_response P ac pc u h r = Inl ValueError"
  using assms by (auto simp: verify_nt_response_def challenge_hash_def)

theorem verify_raises_on_bad_challenge_witness:
  "verify_nt_response demo_primitives (replicate 16 0) [] [97] (replicate 16 2)
     (replicate 24 0) = Inl ValueError"
  using verify_raises_on_bad_challenge
          [of "replicate 24 0" "[]" "replicate 16 0" demo_primitives "[97]" "replicate 16 2"]
  by simp

text \<open>
  Claim C1 (as amended). With primitives of the right output lengths, two 16-byte
  challenges, an ASCII identity and a password that UTF-16 can encode (no lone surrogate
  code point), the digest and the response are computed without an exception and
  \<open>verify_nt_response\<close> accepts the response under that digest.
\<close>

theorem round_trip:
  assumes "primitives_ok P" and "length auth_challenge = 16" and "length peer_challenge = 16"
    and "is_ascii identity" and "utf16_encodable password"
  shows "\<exists>digest response.
           nt_password_hash P password = Inr digest \<and>
           generate_nt_response P auth_challenge peer_challenge identity password = Inr response \<and>
           verify_nt_response P auth_challenge peer_challenge identity digest response = Inr True"
proof -
  from assms(5) obtain pw where pw: "encode_utf16le password = Inr pw"
    using encode_utf16le_ok by blast
  define digest where "digest = hashlib_md5 P pw"
  have d: "nt_password_hash P password = Inr digest" and dl: "length digest = 16"
    using assms(1) pw by (simp_all add: nt_password_hash_def digest_def primitives_ok_def)
  define c where "c = take 8 (hashlib_sha1 P (peer_challenge @ auth_challenge @ map of_nat identity))"
  have c: "challenge_hash P peer_challenge auth_challenge identity = Inr c"
    using assms(2,3,4) by (simp add: challenge_hash_def encode_ascii_def is_ascii_def c_def)
  have cl: "length c = 8" using assms(1) by (simp add: c_def primitives_ok_def)
  define r where "r = response_transform_reference P c digest"
  have r: "challenge_response P c digest = Inr r"
    unfolding r_def using cl dl by (rule challenge_response_eq_reference)
  have rl: "length r = 24"
    unfolding r_def using assms(1) cl by (rule length_response_transform_reference)
  have "generate_nt_response P auth_challenge peer_challenge identity password = Inr r"
    by (simp add: generate_nt_response_def d c r)
  moreover have "verify_nt_response P auth_challenge peer_challenge identity digest r = Inr True"
    by (simp add: verify_nt_response_def rl c r)
  ultimately show ?thesis using d by blast
qed

theorem round_trip_witness:
  "primitives_ok demo_primitives \<and> length (replicate 16 (0 :: byte)) = 16 \<and>
   length (replicate 16 (1 :: byte)) = 16 \<and> is_ascii [97, 108] \<and> utf16_encodable [80, 64] \<and>
   nt_password_hash demo_primitives [80, 64] = Inr (replicate 16 144) \<and>
   (\<exists>response.
      generate_nt_response demo_primitives (replicate 16 0) (replicate 16 1) [97, 108] [80, 64] =
        Inr response \<and>
      verify_nt_response demo_primitives (replicate 16 0) (replicate 16 1) [97, 108]
        (replicate 16 144) response = Inr True)"
  using round_trip [OF demo_primitives_ok, of "replicate 16 0" "replicate 16 1" "[97, 108]" "[80, 64]"]
  by (simp add: demo_primitives_ok is_ascii_def utf16_encodable_def demo_digest_example)

text \<open>
  The round trip as first stated, for every password string, fails on a password that
  contains a lone surrogate: \<open>encode("utf-16le")\<close> raises UnicodeEncodeError.
\<close>

theorem round_trip_counterexample:
  "length (replicate 16 (0 :: byte)) = 16 \<and> length (replicate 16 (1 :: byte)) = 16 \<and>
   is_ascii [97, 108] \<and>
   nt_password_hash demo_primitives [0xD800] = Inl UnicodeEncodeError \<and>
   generate_nt_response demo_primitives (replicate 16 0) (replicate 16 1) [97, 108] [0xD800] =
     Inl UnicodeEncodeError"
  by (simp add: is_ascii_def generate_nt_response_def nt_password_hash_def utf16le_codepoint_def)

text \<open>
  Claim C3. A response that \<open>verify_nt_response\<close> accepts is rejected, with the other
  arguments unchanged, once any single bit of it is inverted.
\<close>

theorem tamper_sensitivity:
  assumes "verify_nt_response P ac pc u h r = Inr True" and "i < length r" and "j < 8"
  shows "verify_nt_response P ac pc u h (flip_response_bit r i j) = Inr False"
proof -
  from assms(1) obtain c where len: "length r = 24"
    and c: "challenge_hash P pc ac u = Inr c" and e: "challenge_response P c h = Inr r"
    by (auto simp: verify_True_iff)
  have "flip_response_bit r i j \<noteq> r" using assms(2,3) by (rule flip_response_bit_neq)
  moreover have "length (flip_response_bit r i j) = 24"
    using len by (simp add: flip_response_bit_def)
  ultimately show ?thesis using c e by (auto simp: verify_nt_response_def)
qed

theorem tamper_sensitivity_witness:
  "verify_nt_response demo_primitives (replicate 16 0) (replicate 16 1) [97, 108] (replicate 16 144)
     [76, 148, 248, 206, 213, 88, 158, 253, 76, 148, 248, 206, 213, 88, 158, 253,
      76, 148, 220, 220, 220, 220, 220, 220] = Inr True \<and>
   verify_nt_response demo_primitives (replicate 16 0) (replicate 16 1) [97, 108] (replicate 16 144)
     [76, 148, 249, 206, 213, 88, 158, 253, 76, 148, 248, 206, 213, 88, 158, 253,
      76, 148, 220, 220, 220, 220, 220, 220] = Inr False"
  using tamper_sensitivity [OF demo_verify_example, of 2 0]
  by (simp add: demo_verify_example flip_response_bit_def)

text \<open>
  Claim C7. For every 8-byte challenge and 16-byte digest \<open>challenge_response\<close> returns
  what the reference definition of the Response Transform describes, 24 bytes long when
  the cipher returns 8-byte blocks. Being a function of its arguments, it is deterministic.
\<close>

theorem response_transform_refines_reference:
  assumes "length challenge8 = 8" and "length digest16 = 16"
  shows "challenge_response P challenge8 digest16 =
           Inr (response_transform_reference P challenge8 digest16) \<and>
         (primitives_ok P \<longrightarrow> length (response_transform_reference P challenge8 digest16) = 24)"
  using assms
  by (simp add: challenge_response_eq_reference length_response_transform_reference)

theorem response_transform_refines_reference_witness:
  "length (replicate 8 (221 :: byte)) = 8 \<and> length (replicate 16 (144 :: byte)) = 16 \<and>
   primitives_ok demo_primitives \<and>
   challenge_response demo_primitives (replicate 8 221) (replicate 16 144) =
     Inr [76, 148, 248, 206, 213, 88, 158, 253, 76, 148, 248, 206, 213, 88, 158, 253,
          76, 148, 220, 220, 220, 220, 220, 220] \<and>
   length [76, 148, 248, 206, 213, 88, 158, 253, 76, 148, 248, 206, 213, 88, 158, 253,
          76, 148, 220, 220, 220, 220, 220, 220 :: byte] = 24"
  using response_transform_refines_reference [of "replicate 8 221" "replicate 16 144" demo_primitives]
  by (simp add: demo_transform_example demo_primitives_ok)

section \<open>Key Expansion loses no key material\<close>

lemma byte_step_low: "word_of_int (acc * 256 + uint (b :: byte)) = b"
proof -
  have "take_bit 8 (acc * 256 + uint b) = take_bit 8 (uint b)"
    by (simp add: take_bit_eq_mod)
  then have "(word_of_int (acc * 256 + uint b) :: byte) = word_of_int (uint b)"
    unfolding word_of_int_eq_iff by simp
  then show ?thesis by (simp only: word_of_int_uint)
qed

lemma byte_step_high: "drop_bit 8 (acc * 256 + uint (b :: byte)) = acc"
proof -
  have "0 \<le> uint b" "uint b < 256" using uint_lt2p [of b] by simp_all
  then show ?thesis by (simp add: drop_bit_eq_div)
qed

lemma int_to_from_bytes:
  "int_to_bytes_big (length bs) (foldl (\<lambda>acc b. acc * 256 + uint b) acc0 bs) = bs"
proof (induction bs rule: rev_induct)
  case Nil
  show ?case by simp
next
  case (snoc b bs)
  have "foldl (\<lambda>acc b. acc * 256 + uint b) acc0 (bs @ [b]) =
          foldl (\<lambda>acc b. acc * 256 + uint b) acc0 bs * 256 + uint b"
    by simp
  then show ?case
    using snoc by (simp only: length_append_singleton int_to_bytes_big.simps byte_step_low byte_step_high)
qed

lemma int_from_bytes_big_bounds:
  "0 \<le> int_from_bytes_big bs \<and> int_from_bytes_big bs < 2 ^ (8 * length bs)"
proof (induction bs rule: rev_induct)
  case Nil
  show ?case by (simp add: int_from_bytes_big_def)
next
  case (snoc b bs)
  have b: "0 \<le> uint b" "uint b < 256" using uint_lt2p [of b] by simp_all
  have "int_from_bytes_big (bs @ [b]) = int_from_bytes_big bs * 256 + uint b"
    by (simp add: int_from_bytes_big_def)
  moreover have "int_from_bytes_big bs + 1 \<le> 2 ^ (8 * length bs)" using snoc by simp
  then have "(int_from_bytes_big bs + 1) * 256 \<le> 2 ^ (8 * length bs) * 256"
    by (rule mult_right_mono) simp
  ultimately show ?case using snoc b by (simp add: algebra_simps power_add)
qed

lemma segment_step:
  "take_bit m (drop_bit 7 (n::int)) * 128 + take_bit 7 n = take_bit (m + 7) n"
proof -
  have "push_bit 7 (drop_bit 7 (take_bit (m + 7) n)) + take_bit 7 (take_bit (m + 7) n) = take_bit (m + 7) n"
    by (rule bits_ident)
  then show ?thesis
    by (simp add: drop_bit_take_bit push_bit_eq_mult min_def)
qed

lemma segments_recompose:
  "foldl (\<lambda>acc i. acc * 128 + take_bit 7 (drop_bit (7 * (k - 1 - i)) (n::int))) 0 [0..<k] =
     take_bit (7 * k) n"
proof (induction k arbitrary: n)
  case 0
  show ?case by simp
next
  case (Suc k)
  have "foldl (\<lambda>acc i. acc * 128 + take_bit 7 (drop_bit (7 * (Suc k - 1 - i)) n)) 0 [0..<k] =
        foldl (\<lambda>acc i. acc * 128 + take_bit 7 (drop_bit (7 * (k - 1 - i)) (drop_bit 7 n))) 0 [0..<k]"
  proof (rule foldl_cong [OF refl refl])
    fix a i assume "i \<in> set [0..<k]"
    then have "7 * (Suc k - 1 - i) = 7 * (k - 1 - i) + 7" by auto
    then show "a * 128 + take_bit 7 (drop_bit (7 * (Suc k - 1 - i)) n) =
               a * 128 + take_bit 7 (drop_bit (7 * (k - 1 - i)) (drop_bit 7 n))"
      by (simp add: drop_bit_drop_bit add.commute)
  qed
  also have "\<dots> = take_bit (7 * k) (drop_bit 7 n)" by (rule Suc.IH)
  finally show ?case
    using segment_step [of "7 * k" n] by (simp add: add.commute)
qed

lemma len8: "LENGTH(8) = 8"
  by simp

lemma high_bits_of_parity_byte:
  "uint (drop_bit 1 (word_of_int (apply_des_parity_to_7bits x) :: byte)) = take_bit 7 x"
proof -
  define g where "g = take_bit 7 x"
  define p :: int where "p = (if even (length (filter (bit g) [0..<7])) then 1 else 0)"
  have g: "0 \<le> g" "g < 128" using take_bit_7_bounds [of x] by (simp_all add: g_def)
  have p: "0 \<le> p" "p \<le> 1" by (simp_all add: p_def)
  have v: "apply_des_parity_to_7bits x = 2 * g + p"
    by (simp add: parity_value Let_def g_def p_def)
  have "take_bit 8 (2 * g + p) = 2 * g + p"
    using g p by (simp add: take_bit_int_eq_self)
  then have u: "uint (word_of_int (2 * g + p) :: byte) = 2 * g + p"
    by (simp only: uint_word_of_int_eq len8)
  have "uint (drop_bit 1 (word_of_int (2 * g + p) :: byte)) =
          uint (word_of_int (2 * g + p) :: byte) div 2"
    by (simp only: drop_bit_eq_div uint_div power_one_right) simp
  also have "\<dots> = (2 * g + p) div 2"
    unfolding u ..
  also have "\<dots> = g" using p by auto
  finally show ?thesis by (simp add: v g_def)
qed

lemma segment_high_bits:
  "uint (drop_bit 1 (word_of_int (apply_des_parity_to_7bits (y AND 0x7F)) :: byte)) = take_bit 7 y"
proof -
  have "y AND 0x7F = take_bit 7 y" by (simp add: take_bit_eq_mask mask_eq_exp_minus_1)
  then show ?thesis by (simp only: high_bits_of_parity_byte take_bit_take_bit min.idem)
qed

lemma key_material_of_expanded:
  assumes "length seven = 7"
  shows "\<exists>key. make_des_key_from_7_bytes seven = Inr key \<and> key_material_of_des_key key = seven"
proof -
  let ?n = "int_from_bytes_big seven"
  let ?F = "\<lambda>i. (word_of_int (apply_des_parity_to_7bits (drop_bit (7 * (7 - i)) ?n AND 0x7F)) :: byte)"
  have n: "take_bit 56 ?n = ?n"
    using int_from_bytes_big_bounds [of seven] assms by (simp add: take_bit_int_eq_self)
  have "foldl (\<lambda>acc i. acc * 128 + take_bit 7 (drop_bit (7 * (8 - 1 - i)) ?n)) 0 [0..<8] =
          take_bit (7 * 8) ?n"
    by (rule segments_recompose)
  then have seg: "foldl (\<lambda>acc i. acc * 128 + take_bit 7 (drop_bit (7 * (7 - i)) ?n)) 0 [0..<8] = ?n"
    using n by simp
  have "foldl (\<lambda>acc b. acc * 128 + uint (drop_bit 1 b)) 0 (map ?F [0..<8]) =
          foldl (\<lambda>acc i. acc * 128 + uint (drop_bit 1 (?F i))) 0 [0..<8]"
    by (simp only: foldl_map)
  also have "\<dots> = foldl (\<lambda>acc i. acc * 128 + take_bit 7 (drop_bit (7 * (7 - i)) ?n)) 0 [0..<8]"
    by (simp only: segment_high_bits)
  finally have key56: "foldl (\<lambda>acc b. acc * 128 + uint (drop_bit 1 b)) 0 (map ?F [0..<8]) = ?n"
    using seg by simp
  have "int_to_bytes_big (length seven) ?n = seven"
    unfolding int_from_bytes_big_def by (rule int_to_from_bytes)
  then have bytes_back: "int_to_bytes_big 7 ?n = seven" using assms by simp
  have "key_material_of_des_key (map ?F [0..<8]) = seven"
    unfolding key_material_of_des_key_def key56 by (rule bytes_back)
  then show ?thesis
    using make_des_key_map [OF assms] by simp
qed


lemma make_des_key_example:
  "make_des_key_from_7_bytes [1, 2, 3, 4, 5, 6, 7] = Inr [1, 128, 128, 97, 64, 41, 25, 14]"
  by (simp add: make_des_key_eq_reference key_expansion_reference_example)


text \<open>
  Claim C10. Key Expansion is injective on 7-byte inputs: the input is read back from the
  key by concatenating the high 7 bits of each key byte, so two 7-byte inputs with the
  same key are equal.
\<close>

theorem key_expansion_injective:
  "(length s = 7 \<longrightarrow>
      (\<exists>key. make_des_key_from_7_bytes s = Inr key \<and> key_material_of_des_key key = s)) \<and>
   (length s = 7 \<and> length t = 7 \<and> make_des_key_from_7_bytes s = make_des_key_from_7_bytes t
      \<longrightarrow> s = t)"
proof (intro conjI impI)
  assume "length s = 7"
  then show "\<exists>key. make_des_key_from_7_bytes s = Inr key \<and> key_material_of_des_key key = s"
    by (rule key_material_of_expanded)
next
  assume a: "length s = 7 \<and> length t = 7 \<and> make_des_key_from_7_bytes s = make_des_key_from_7_bytes t"
  then obtain ks where ks: "make_des_key_from_7_bytes s = Inr ks" "key_material_of_des_key ks = s"
    using key_material_of_expanded by blast
  from a obtain kt where kt: "make_des_key_from_7_bytes t = Inr kt" "key_material_of_des_key kt = t"
    using key_material_of_expanded by blast
  from a ks kt have "ks = kt" by simp
  with ks kt show "s = t" by simp
qed

theorem key_expansion_injective_witness:
  "length [1, 2, 3, 4, 5, 6, 7 :: byte] = 7 \<and>
   make_des_key_from_7_bytes [1, 2, 3, 4, 5, 6, 7] = Inr [1, 128, 128, 97, 64, 41, 25, 14] \<and>
   key_material_of_des_key [1, 128, 128, 97, 64, 41, 25, 14] = [1, 2, 3, 4, 5, 6, 7]"
  using key_expansion_injective [of "[1, 2, 3, 4, 5, 6, 7]" "[1, 2, 3, 4, 5, 6, 7]"]
  by (simp add: make_des_key_example)

section \<open>Properties of the session handling\<close>

text \<open>
  Claim C4 (as amended). When a session has been opened for one identity and
  \<open>auth_response\<close> is called on it with a different identity, the call is rejected with
  status 400, "Username mismatch", and the session is not consumed: the store is
  unchanged, the session is still found, and a second call is rejected in the same way.
\<close>

theorem identity_mismatch_keeps_session:
  assumes "create_session urandom16 uuid4 sessions0 identity = (sid, sessions)"
    and "req_session_id req = sid" and "req_username req \<noteq> identity"
  shows "auth_response E sessions req = (Inl (HTTPException 400 ''Username mismatch''), sessions) \<and>
         get_session sessions sid =
           Inr \<lparr>sess_username = identity, sess_auth_challenge = urandom16\<rparr> \<and>
         auth_response E (snd (auth_response E sessions req)) req =
           (Inl (HTTPException 400 ''Username mismatch''), sessions)"
proof -
  from assms(1) have s: "sessions sid = Some \<lparr>sess_username = identity, sess_auth_challenge = urandom16\<rparr>"
    by (auto simp: create_session_def Let_def)
  have r: "auth_response E sessions req = (Inl (HTTPException 400 ''Username mismatch''), sessions)"
    using s assms(2,3)
    by (auto simp: auth_response_def get_username_def get_auth_challenge_def get_session_def)
  moreover have "get_session sessions sid =
      Inr \<lparr>sess_username = identity, sess_auth_challenge = urandom16\<rparr>"
    using s by (simp add: get_session_def)
  ultimately show ?thesis by simp
qed

theorem identity_mismatch_keeps_session_witness:
  "create_session (replicate 16 0) (str ''s1'') Map.empty (str ''alice'') =
     (str ''s1'', [str ''s1'' \<mapsto> \<lparr>sess_username = str ''alice'', sess_auth_challenge = replicate 16 0\<rparr>]) \<and>
   str ''bob'' \<noteq> str ''alice'' \<and>
   auth_response demo_env
     [str ''s1'' \<mapsto> \<lparr>sess_username = str ''alice'', sess_auth_challenge = replicate 16 0\<rparr>]
     \<lparr>req_session_id = str ''s1'', req_username = str ''bob'', req_peer_challenge = [],
      req_nt_response = []\<rparr> =
     (Inl (HTTPException 400 ''Username mismatch''),
      [str ''s1'' \<mapsto> \<lparr>sess_username = str ''alice'', sess_auth_challenge = replicate 16 0\<rparr>])"
  using identity_mismatch_keeps_session
    [of "replicate 16 0" "str ''s1''" Map.empty "str ''alice''" "str ''s1''"
        "[str ''s1'' \<mapsto> \<lparr>sess_username = str ''alice'', sess_auth_challenge = replicate 16 0\<rparr>]"
        "\<lparr>req_session_id = str ''s1'', req_username = str ''bob'', req_peer_challenge = [],
          req_nt_response = []\<rparr>" demo_env]
  by (simp add: create_session_def str_def Let_def)

text \<open>
  The claim as first stated fails: after the rejected call for "bob" on the session of
  "alice", a second call is not answered with "Invalid session_id", and the session
  lookup does not raise KeyError.
\<close>

theorem identity_mismatch_counterexample:
  "fst (auth_response demo_env
          (snd (auth_response demo_env
                  (snd (create_session (replicate 16 0) (str ''s1'') Map.empty (str ''alice'')))
                  \<lparr>req_session_id = str ''s1'', req_username = str ''bob'',
                   req_peer_challenge = [], req_nt_response = []\<rparr>))
          \<lparr>req_session_id = str ''s1'', req_username = str ''bob'',
           req_peer_challenge = [], req_nt_response = []\<rparr>)
     \<noteq> Inl (HTTPException 400 ''Invalid session_id'') \<and>
   get_session
     (snd (auth_response demo_env
             (snd (create_session (replicate 16 0) (str ''s1'') Map.empty (str ''alice'')))
             \<lparr>req_session_id = str ''s1'', req_username = str ''bob'',
              req_peer_challenge = [], req_nt_response = []\<rparr>))
     (str ''s1'') \<noteq> Inl KeyError"
  by (simp add: auth_response_def get_username_def get_auth_challenge_def get_session_def
        create_session_def str_def Let_def)

end
